theory Spec2Isabelle
  imports Complex_Main
begin

section \<open>Python values used by the retrieval code\<close>

text \<open>
  A Python \<^verbatim>\<open>str\<close> is a sequence of Unicode code points. A code point is a natural
  number; \<open>str\<close> turns an ASCII literal into its code points.
\<close>

type_synonym pystr = "nat list"

definition str :: "string \<Rightarrow> pystr" where
  "str s = map of_char s"

text \<open>
  The exceptions that the modelled functions can raise or catch. \<open>Sqlite3Error\<close> stands
  for \<^verbatim>\<open>sqlite3.Error\<close> and its subclasses.
\<close>

datatype exn =
    ValueError
  | IndexError
  | JSONDecodeError
  | OverflowError
  | Sqlite3Error

text \<open>
  \<^verbatim>\<open>str.isspace\<close> for one code point: the code points that CPython treats as
  whitespace in \<^verbatim>\<open>str.split()\<close> and \<^verbatim>\<open>str.strip()\<close>.
\<close>

definition isspace :: "nat \<Rightarrow> bool" where
  "isspace c \<longleftrightarrow>
     (9 \<le> c \<and> c \<le> 13) \<or> (28 \<le> c \<and> c \<le> 32) \<or> c = 133 \<or> c = 160 \<or>
     c = 5760 \<or> (8192 \<le> c \<and> c \<le> 8202) \<or> c = 8232 \<or> c = 8233 \<or>
     c = 8239 \<or> c = 8287 \<or> c = 12288"

text \<open>
  \<^verbatim>\<open>s.split()\<close> with no argument: skip whitespace, cut the maximal run of
  non-whitespace code points, repeat.
\<close>

function split :: "pystr \<Rightarrow> pystr list" where
  "split [] = []"
| "split (c # cs) =
     (if isspace c then split cs
      else (c # takeWhile (\<lambda>x. \<not> isspace x) cs) #
           split (dropWhile (\<lambda>x. \<not> isspace x) cs))"
  by pat_completeness auto
termination
  by (relation "measure length") (auto simp: length_dropWhile_le less_Suc_eq_le)

text \<open>\<^verbatim>\<open>s.strip()\<close>: drop the whitespace at both ends.\<close>

definition strip :: "pystr \<Rightarrow> pystr" where
  "strip s = rev (dropWhile isspace (rev (dropWhile isspace s)))"

text \<open>\<^verbatim>\<open>sep.join(ws)\<close>.\<close>

fun join :: "pystr \<Rightarrow> pystr list \<Rightarrow> pystr" where
  "join sep [] = []"
| "join sep [w] = w"
| "join sep (w # v # ws) = w @ sep @ join sep (v # ws)"

text \<open>
  \<^verbatim>\<open>xs[start:stop]\<close> for integer bounds: a negative bound counts from the end, and
  both bounds are clamped to the list.
\<close>

definition py_slice :: "'a list \<Rightarrow> int \<Rightarrow> int \<Rightarrow> 'a list" where
  "py_slice xs start stop =
     (let n = int (length xs);
          lo = (if start < 0 then max 0 (start + n) else min start n);
          hi = (if stop < 0 then max 0 (stop + n) else min stop n)
      in take (nat (hi - lo)) (drop (nat lo) xs))"

text \<open>
  \<^verbatim>\<open>range(start, stop, step)\<close>: a zero step raises \<^verbatim>\<open>ValueError\<close>; the number of
  elements is the one CPython computes.
\<close>

definition py_range :: "int \<Rightarrow> int \<Rightarrow> int \<Rightarrow> exn + int list" where
  "py_range start stop step =
     (if step = 0 then Inl ValueError
      else if 0 < step then
        Inr (map (\<lambda>k. start + int k * step) [0..<nat ((stop - start + step - 1) div step)])
      else
        Inr (map (\<lambda>k. start + int k * step) [0..<nat ((start - stop - step - 1) div (- step))]))"

section \<open>The text chunker (src/backend/app.py)\<close>

text \<open>
  \<^verbatim>\<open>
  def chunk_document(content, chunk_size=500, overlap=50):
      words = content.split()
      chunks = []
      for i in range(0, len(words), chunk_size - overlap):
          chunk = ' '.join(words[i:i + chunk_size])
          if chunk.strip():
              chunks.append(chunk.strip())
      return chunks
  \<close>
  The loop body is \<open>chunk_loop\<close>, run over the indices that \<open>range\<close> yields.
\<close>

fun chunk_loop :: "pystr list \<Rightarrow> int \<Rightarrow> int list \<Rightarrow> pystr list \<Rightarrow> pystr list" where
  "chunk_loop words chunk_size [] chunks = chunks"
| "chunk_loop words chunk_size (i # is) chunks =
     (let chunk = join [32] (py_slice words i (i + chunk_size))
      in chunk_loop words chunk_size is
           (if strip chunk \<noteq> [] then chunks @ [strip chunk] else chunks))"

definition chunk_document :: "pystr \<Rightarrow> int \<Rightarrow> int \<Rightarrow> exn + pystr list" where
  "chunk_document content chunk_size overlap =
     (let words = split content
      in case py_range 0 (int (length words)) (chunk_size - overlap) of
           Inl e \<Rightarrow> Inl e
         | Inr is \<Rightarrow> Inr (chunk_loop words chunk_size is []))"

text \<open>
  The chunking policy in the words of the specification: windows of \<open>sz\<close> tokens
  that advance by \<open>step\<close> tokens, one window for every start position inside the
  token stream.
\<close>

definition sliding_windows :: "nat \<Rightarrow> nat \<Rightarrow> 'a list \<Rightarrow> 'a list list" where
  "sliding_windows sz step ws =
     map (\<lambda>k. take sz (drop (k * step) ws)) [0..<(length ws + step - 1) div step]"

text \<open>
  The token span that a chunk does not share with the chunk before it: the first
  chunk whole, every later chunk without its first \<open>overlap\<close> tokens.
\<close>

fun unique_spans :: "nat \<Rightarrow> pystr list \<Rightarrow> pystr list list" where
  "unique_spans overlap [] = []"
| "unique_spans overlap (c # cs) = split c # map (\<lambda>d. drop overlap (split d)) cs"

section \<open>The embedding provider (src/nlp/processor.py)\<close>

text \<open>
  A vector is a list of numbers. The sentence-transformer model is not part of the
  repository: \<open>encode\<close> stands for \<^verbatim>\<open>self.embedder.encode\<close>, which takes a list of
  texts and returns one vector per text or raises, and \<open>astype\<close> stands for the
  rounding that \<^verbatim>\<open>astype(np.float32)\<close> applies to each component.
  \<^verbatim>\<open>
  def generate_embeddings(self, text):
      try:
          embeddings = self.embedder.encode([text])[0]
          return embeddings.astype(np.float32)
      except Exception as e:
          return np.zeros(384, dtype=np.float32)

  def generate_batch_embeddings(self, texts):
      try:
          embeddings = self.embedder.encode(texts)
          return [emb.astype(np.float32) for emb in embeddings]
      except Exception as e:
          return [np.zeros(384, dtype=np.float32) for _ in texts]
  \<close>
\<close>

type_synonym vec = "real list"

type_synonym encoder = "pystr list \<Rightarrow> exn + vec list"

definition generate_embeddings_try :: "encoder \<Rightarrow> (real \<Rightarrow> real) \<Rightarrow> pystr \<Rightarrow> exn + vec" where
  "generate_embeddings_try encode astype t =
     (case encode [t] of
        Inl e \<Rightarrow> Inl e
      | Inr [] \<Rightarrow> Inl IndexError
      | Inr (embeddings # _) \<Rightarrow> Inr (map astype embeddings))"

definition generate_embeddings :: "encoder \<Rightarrow> (real \<Rightarrow> real) \<Rightarrow> pystr \<Rightarrow> vec" where
  "generate_embeddings encode astype t =
     (case generate_embeddings_try encode astype t of
        Inl e \<Rightarrow> replicate 384 0
      | Inr v \<Rightarrow> v)"

definition generate_batch_embeddings :: "encoder \<Rightarrow> (real \<Rightarrow> real) \<Rightarrow> pystr list \<Rightarrow> vec list" where
  "generate_batch_embeddings encode astype texts =
     (case encode texts of
        Inl e \<Rightarrow> map (\<lambda>_. replicate 384 0) texts
      | Inr embeddings \<Rightarrow> map (map astype) embeddings)"

text \<open>
  A backend for evaluating the two operations on concrete inputs: it maps a text to
  the 384-dimensional vector whose components are all the length of the text, and it
  raises on a batch that contains the empty text.
\<close>

definition encode_rejecting_empty :: encoder where
  "encode_rejecting_empty texts =
     (if [] \<in> set texts then Inl ValueError
      else Inr (map (\<lambda>t. replicate 384 (real (length t))) texts))"

text \<open>
  A backend of another dimension: it maps every text to the same vector of three
  components and never raises.
\<close>

definition encode_three_dimensional :: encoder where
  "encode_three_dimensional texts = Inr (map (\<lambda>t. [1, 2, 3]) texts)"

section \<open>The vector index (src/database/vector_db.py)\<close>

text \<open>
  Values that Python passes to SQLite and to \<^verbatim>\<open>json\<close>.
\<close>

datatype pyval =
    PNone
  | PInt int
  | PStr pystr
  | PList "pyval list"
  | PDict "(pystr \<times> pyval) list"

text \<open>
  The parameter types that \<^verbatim>\<open>sqlite3\<close> binds: \<^verbatim>\<open>None\<close>, a 64-bit integer, a string.
  A larger integer raises \<^verbatim>\<open>OverflowError\<close>, a list or a dictionary raises an error of
  \<^verbatim>\<open>sqlite3\<close>.
\<close>

fun sqlite_bind :: "pyval \<Rightarrow> exn option" where
  "sqlite_bind PNone = None"
| "sqlite_bind (PInt i) = (if - (2 ^ 63) \<le> i \<and> i < 2 ^ 63 then None else Some OverflowError)"
| "sqlite_bind (PStr s) = None"
| "sqlite_bind (PList xs) = Some Sqlite3Error"
| "sqlite_bind (PDict kvs) = Some Sqlite3Error"

text \<open>
  The tables \<^verbatim>\<open>documents\<close> (the columns that the two operations write and read) and
  \<^verbatim>\<open>document_embeddings\<close>, rows in insertion order, and the \<^verbatim>\<open>AUTOINCREMENT\<close>
  counter of \<^verbatim>\<open>documents\<close>.
\<close>

record document_row =
  doc_id :: int
  doc_filename :: pystr
  doc_content :: pystr
  doc_cleaned_content :: pyval
  doc_tokens :: pystr
  doc_entities :: pystr
  doc_keywords :: pystr
  doc_word_count :: pyval
  doc_metadata :: "pystr option"

record database =
  documents :: "document_row list"
  document_embeddings :: "(int \<times> vec) list"
  sqlite_sequence :: int

text \<open>
  A \<^verbatim>\<open>sqlite3\<close> connection: the committed database and, while a transaction is open,
  the database as the transaction sees it. \<^verbatim>\<open>sqlite3\<close> opens the transaction before
  the first \<^verbatim>\<open>INSERT\<close>; \<^verbatim>\<open>commit()\<close> makes it the committed database and
  \<^verbatim>\<open>rollback()\<close> discards it.
\<close>

record connection =
  committed :: database
  pending :: "database option"

definition working :: "connection \<Rightarrow> database" where
  "working conn = (case pending conn of None \<Rightarrow> committed conn | Some db \<Rightarrow> db)"

text \<open>
  The storage layer can fail at every statement of the insert (disk, lock, extension).
  \<open>faults\<close> says which statements fail; a failed statement raises and changes nothing.
\<close>

datatype statement = InsertDocument | InsertEmbedding | Commit

type_synonym faults = "statement \<Rightarrow> bool"

definition next_rowid :: "database \<Rightarrow> int" where
  "next_rowid db = max (sqlite_sequence db) (fold max (map doc_id (documents db)) 0) + 1"

definition insert_document :: "faults \<Rightarrow> connection \<Rightarrow> document_row \<Rightarrow> exn + connection \<times> int" where
  "insert_document faults conn row =
     (if faults InsertDocument then Inl Sqlite3Error
      else case sqlite_bind (doc_cleaned_content row) of
        Some e \<Rightarrow> Inl e
      | None \<Rightarrow>
         (case sqlite_bind (doc_word_count row) of
            Some e \<Rightarrow> Inl e
          | None \<Rightarrow>
              let db = working conn;
                  rowid = next_rowid db;
                  db' = db\<lparr>documents := documents db @ [row\<lparr>doc_id := rowid\<rparr>],
                           sqlite_sequence := rowid\<rparr>
              in Inr (conn\<lparr>pending := Some db'\<rparr>, rowid)))"

text \<open>
  The \<^verbatim>\<open>vec0\<close> table has \<^verbatim>\<open>document_id\<close> as its primary key and a column of 384
  floats: a vector of another dimension and a key already present are rejected.
\<close>

definition insert_embedding :: "faults \<Rightarrow> connection \<Rightarrow> int \<Rightarrow> vec \<Rightarrow> exn + connection" where
  "insert_embedding faults conn document_id embedding =
     (if faults InsertEmbedding then Inl Sqlite3Error
      else if length embedding \<noteq> 384 then Inl Sqlite3Error
      else if document_id \<in> set (map fst (document_embeddings (working conn)))
      then Inl Sqlite3Error
      else Inr (conn\<lparr>pending := Some ((working conn)
                  \<lparr>document_embeddings :=
                     document_embeddings (working conn) @ [(document_id, embedding)]\<rparr>)\<rparr>))"

definition commit :: "faults \<Rightarrow> connection \<Rightarrow> exn + connection" where
  "commit faults conn =
     (if faults Commit then Inl Sqlite3Error
      else Inr (conn\<lparr>committed := working conn, pending := None\<rparr>))"

definition rollback :: "connection \<Rightarrow> connection" where
  "rollback conn = conn\<lparr>pending := None\<rparr>"

text \<open>
  \<^verbatim>\<open>
  def add_document_with_embeddings(self, filename, content, processed_data,
                                   embedding, metadata=None):
      cursor = self.connection.cursor()
      try:
          cursor.execute("INSERT INTO documents (filename, content, cleaned_content,
              tokens, entities, keywords, word_count, metadata) VALUES (...)",
              (filename, content,
               processed_data.get('cleaned_content', content),
               json.dumps(processed_data.get('tokens', [])),
               json.dumps(processed_data.get('entities', [])),
               json.dumps(processed_data.get('keywords', [])),
               processed_data.get('word_count', len(content.split())),
               json.dumps(metadata) if metadata else None))
          document_id = cursor.lastrowid
          cursor.execute("INSERT INTO document_embeddings (document_id, embedding)
              VALUES (?, ?)", (document_id, embedding.tobytes()))
          self.connection.commit()
          return document_id
      except Exception as e:
          self.connection.rollback()
          raise
  \<close>
  \<open>json_dumps\<close> stands for \<^verbatim>\<open>json.dumps\<close>. The \<^verbatim>\<open>try\<close> block returns the connection
  as it is when the block ends or raises; the handler rolls back and raises again.
\<close>

definition dict_get :: "(string \<rightharpoonup> pyval) \<Rightarrow> string \<Rightarrow> pyval \<Rightarrow> pyval" where
  "dict_get d k dflt = (case d k of None \<Rightarrow> dflt | Some v \<Rightarrow> v)"

definition add_document_with_embeddings_try ::
  "faults \<Rightarrow> (pyval \<Rightarrow> pystr) \<Rightarrow> connection \<Rightarrow> pystr \<Rightarrow> pystr \<Rightarrow> (string \<rightharpoonup> pyval) \<Rightarrow> vec \<Rightarrow>
   (pystr \<times> pyval) list option \<Rightarrow> connection \<times> (exn + int)" where
  "add_document_with_embeddings_try faults json_dumps conn filename content processed_data
       embedding metadata =
     (let row = \<lparr>doc_id = 0,
                 doc_filename = filename,
                 doc_content = content,
                 doc_cleaned_content = dict_get processed_data ''cleaned_content'' (PStr content),
                 doc_tokens = json_dumps (dict_get processed_data ''tokens'' (PList [])),
                 doc_entities = json_dumps (dict_get processed_data ''entities'' (PList [])),
                 doc_keywords = json_dumps (dict_get processed_data ''keywords'' (PList [])),
                 doc_word_count =
                   dict_get processed_data ''word_count'' (PInt (int (length (split content)))),
                 doc_metadata =
                   (case metadata of
                      None \<Rightarrow> None
                    | Some kvs \<Rightarrow> if kvs = [] then None else Some (json_dumps (PDict kvs)))\<rparr>
      in case insert_document faults conn row of
           Inl e \<Rightarrow> (conn, Inl e)
         | Inr (conn1, document_id) \<Rightarrow>
             (case insert_embedding faults conn1 document_id embedding of
                Inl e \<Rightarrow> (conn1, Inl e)
              | Inr conn2 \<Rightarrow>
                  (case commit faults conn2 of
                     Inl e \<Rightarrow> (conn2, Inl e)
                   | Inr conn3 \<Rightarrow> (conn3, Inr document_id))))"

definition add_document_with_embeddings ::
  "faults \<Rightarrow> (pyval \<Rightarrow> pystr) \<Rightarrow> connection \<Rightarrow> pystr \<Rightarrow> pystr \<Rightarrow> (string \<rightharpoonup> pyval) \<Rightarrow> vec \<Rightarrow>
   (pystr \<times> pyval) list option \<Rightarrow> connection \<times> (exn + int)" where
  "add_document_with_embeddings faults json_dumps conn filename content processed_data
       embedding metadata =
     (case add_document_with_embeddings_try faults json_dumps conn filename content
             processed_data embedding metadata of
        (conn', Inl e) \<Rightarrow> (rollback conn', Inl e)
      | (conn', Inr document_id) \<Rightarrow> (conn', Inr document_id))"

text \<open>
  No embedding row without its document row and no document row without its embedding
  row.
\<close>

definition paired :: "database \<Rightarrow> bool" where
  "paired db \<longleftrightarrow> set (map doc_id (documents db)) = set (map fst (document_embeddings db))"

text \<open>
  \<^verbatim>\<open>
  def semantic_search(self, query_embedding, limit=5, distance_threshold=1.5):
      cursor = self.connection.cursor()
      try:
          self._log_search_query(query_embedding, limit)
          result = cursor.execute("SELECT d.id, d.filename, d.content,
              d.cleaned_content, d.metadata, e.distance
              FROM document_embeddings e JOIN documents d ON e.document_id = d.id
              WHERE e.embedding MATCH ? AND e.distance < ?
              ORDER BY e.distance LIMIT ?",
              (query_embedding.tobytes(), distance_threshold, limit))
          results = []
          for row in result.fetchall():
              doc_id, filename, content, cleaned_content, metadata_json, distance = row
              metadata = json.loads(metadata_json) if metadata_json else {}
              similarity_score = max(0.0, 1.0 - distance)
              results.append(SearchResult(document_id=doc_id, filename=filename,
                  content=content, metadata=metadata, distance=distance,
                  similarity_score=similarity_score))
          return results
      except Exception as e:
          return []
  \<close>
  The statement puts the \<^verbatim>\<open>MATCH\<close> on the \<^verbatim>\<open>vec0\<close> table inside a join with
  \<^verbatim>\<open>documents\<close> and the \<^verbatim>\<open>LIMIT\<close> on the join. \<^verbatim>\<open>vec0\<close> answers a \<^verbatim>\<open>MATCH\<close> query
  only when the statement hands it the number of neighbours (\<^verbatim>\<open>k = ?\<close>, or a
  \<^verbatim>\<open>LIMIT\<close> that reaches the table); through the join it is handed neither and
  rejects the statement, on every call and whatever the tables hold. So
  \<^verbatim>\<open>cursor.execute\<close> raises, the loop over the rows is never entered and the handler
  returns the empty list. \<open>json_loads\<close> stands for \<^verbatim>\<open>json.loads\<close>.
  \<^verbatim>\<open>_log_search_query\<close> catches its own errors, so it has no part in the result.
\<close>

record search_result =
  sr_document_id :: int
  sr_filename :: pystr
  sr_content :: pystr
  sr_metadata :: pyval
  sr_distance :: real
  sr_similarity_score :: real

definition execute_select ::
  "database \<Rightarrow> vec \<Rightarrow> real \<Rightarrow> int \<Rightarrow> exn + (document_row \<times> real) list" where
  "execute_select db query_embedding distance_threshold limit = Inl Sqlite3Error"

fun build_results ::
  "(pystr \<Rightarrow> exn + pyval) \<Rightarrow> (document_row \<times> real) list \<Rightarrow> search_result list \<Rightarrow>
   exn + search_result list" where
  "build_results json_loads [] results = Inr results"
| "build_results json_loads ((d, distance) # rows) results =
     (case (case doc_metadata d of
              None \<Rightarrow> Inr (PDict [])
            | Some metadata_json \<Rightarrow>
                if metadata_json = [] then Inr (PDict []) else json_loads metadata_json) of
        Inl e \<Rightarrow> Inl e
      | Inr metadata \<Rightarrow>
          build_results json_loads rows
            (results @ [\<lparr>sr_document_id = doc_id d,
                         sr_filename = doc_filename d,
                         sr_content = doc_content d,
                         sr_metadata = metadata,
                         sr_distance = distance,
                         sr_similarity_score = max 0 (1 - distance)\<rparr>]))"

definition semantic_search_try ::
  "(pystr \<Rightarrow> exn + pyval) \<Rightarrow> connection \<Rightarrow> vec \<Rightarrow> int \<Rightarrow> real \<Rightarrow> exn + search_result list" where
  "semantic_search_try json_loads conn query_embedding limit distance_threshold =
     (case execute_select (working conn) query_embedding distance_threshold limit of
        Inl e \<Rightarrow> Inl e
      | Inr rows \<Rightarrow> build_results json_loads rows [])"

definition semantic_search ::
  "(pystr \<Rightarrow> exn + pyval) \<Rightarrow> connection \<Rightarrow> vec \<Rightarrow> int \<Rightarrow> real \<Rightarrow> search_result list" where
  "semantic_search json_loads conn query_embedding limit distance_threshold =
     (case semantic_search_try json_loads conn query_embedding limit distance_threshold of
        Inl e \<Rightarrow> []
      | Inr results \<Rightarrow> results)"

text \<open>
  Values for evaluating the index on concrete inputs: no fault, a connection that
  holds two documents with their embeddings, and a connection on the empty database.
\<close>

definition no_faults :: faults where
  "no_faults s = False"

definition sample_row :: "int \<Rightarrow> document_row" where
  "sample_row i =
     \<lparr>doc_id = i, doc_filename = str ''f'', doc_content = str ''c'',
      doc_cleaned_content = PStr (str ''c''), doc_tokens = str ''[]'',
      doc_entities = str ''[]'', doc_keywords = str ''[]'', doc_word_count = PInt 1,
      doc_metadata = None\<rparr>"

definition sample_connection :: connection where
  "sample_connection =
     \<lparr>committed =
        \<lparr>documents = [sample_row 1, sample_row 2],
         document_embeddings = [(1, replicate 384 3), (2, replicate 384 1)],
         sqlite_sequence = 2\<rparr>,
      pending = None\<rparr>"

definition empty_connection :: connection where
  "empty_connection =
     \<lparr>committed = \<lparr>documents = [], document_embeddings = [], sqlite_sequence = 0\<rparr>,
      pending = None\<rparr>"

section \<open>Document search (src/backend/app.py and fixed_backend.py)\<close>

text \<open>
  The entries of \<^verbatim>\<open>model_state.documents\<close> (the keys that search reads), the entries
  of the result list, and the response dictionary as the list of its keys and values
  in the order the code writes them.
\<close>

record stored_document =
  sd_document_id :: pystr
  sd_filename :: pystr
  sd_content :: pystr
  sd_chunks :: "pystr list"

record search_hit =
  hit_filename :: pystr
  hit_content_preview :: pystr
  hit_relevance_score :: int
  hit_matches :: int

datatype response_value = Hits "search_hit list" | Text pystr | Number int

type_synonym response = "(string \<times> response_value) list"

text \<open>\<^verbatim>\<open>sub in s\<close> for strings.\<close>

fun contains :: "pystr \<Rightarrow> pystr \<Rightarrow> bool" where
  "contains sub [] = (sub = [])"
| "contains sub (c # cs) = (take (length sub) (c # cs) = sub \<or> contains sub cs)"

text \<open>
  \<^verbatim>\<open>s.count(sub)\<close>: the number of non-overlapping occurrences, counted from the left;
  the empty string occurs \<open>len(s) + 1\<close> times.
\<close>

function count_nonempty :: "pystr \<Rightarrow> pystr \<Rightarrow> nat" where
  "count_nonempty sub [] = 0"
| "count_nonempty sub (c # cs) =
     (if take (length sub) (c # cs) = sub
      then Suc (count_nonempty sub (drop (length sub - 1) cs))
      else count_nonempty sub cs)"
  by pat_completeness auto
termination
  by (relation "measure (\<lambda>(sub, s). length s)") (auto simp: less_Suc_eq_le)

definition count :: "pystr \<Rightarrow> pystr \<Rightarrow> nat" where
  "count s sub = (if sub = [] then length s + 1 else count_nonempty sub s)"

text \<open>\<^verbatim>\<open>s.find(sub)\<close>: the first index where \<open>sub\<close> occurs, or \<open>-1\<close>.\<close>

fun find_from :: "pystr \<Rightarrow> pystr \<Rightarrow> int \<Rightarrow> int" where
  "find_from sub [] i = (if sub = [] then i else - 1)"
| "find_from sub (c # cs) i =
     (if take (length sub) (c # cs) = sub then i else find_from sub cs (i + 1))"

definition find :: "pystr \<Rightarrow> pystr \<Rightarrow> int" where
  "find s sub = find_from sub s 0"

text \<open>
  \<^verbatim>\<open>
  async def search_documents(query: str, limit: int = 5):          # app.py
      try:
          if not model_state.documents:
              return {"results": [], "message": "No documents uploaded yet"}
          results = []
          query_lower = query.lower()
          for doc in model_state.documents:
              matches = []
              for chunk in doc.get("chunks", []):
                  if query_lower in chunk.lower():
                      matches.append(chunk)
              if matches:
                  relevance_score = min(85 + len(matches) * 10, 100)
                  results.append({
                      "filename": doc["filename"],
                      "content_preview": matches[0][:200] + "..." if matches[0] else "",
                      "relevance_score": relevance_score,
                      "matches": len(matches)})
          results.sort(key=lambda x: x["relevance_score"], reverse=True)
          return {"results": results[:limit],
                  "total_documents": len(model_state.documents), "query": query}
      except Exception as e:
          raise HTTPException(status_code=500, detail=str(e))
  \<close>
  \<open>lower\<close> stands for \<^verbatim>\<open>str.lower\<close>. No statement of the \<^verbatim>\<open>try\<close> block raises on
  values of these types, so the handler is never entered. The sort of Python is stable
  and \<^verbatim>\<open>reverse=True\<close> keeps the order of equal keys: it is the stable sort by the
  negated key.
\<close>

fun search_loop :: "(pystr \<Rightarrow> pystr) \<Rightarrow> pystr \<Rightarrow> stored_document list \<Rightarrow> search_hit list \<Rightarrow> search_hit list" where
  "search_loop lower query_lower [] results = results"
| "search_loop lower query_lower (doc # docs) results =
     (let matches = filter (\<lambda>chunk. contains query_lower (lower chunk)) (sd_chunks doc)
      in search_loop lower query_lower docs
           (if matches \<noteq> []
            then results @
                 [\<lparr>hit_filename = sd_filename doc,
                   hit_content_preview =
                     (if hd matches \<noteq> [] then py_slice (hd matches) 0 200 @ str ''...'' else []),
                   hit_relevance_score = min (85 + int (length matches) * 10) 100,
                   hit_matches = int (length matches)\<rparr>]
            else results))"

definition search_documents :: "(pystr \<Rightarrow> pystr) \<Rightarrow> stored_document list \<Rightarrow> pystr \<Rightarrow> int \<Rightarrow> response" where
  "search_documents lower stored query limit =
     (if stored = []
      then [(''results'', Hits []), (''message'', Text (str ''No documents uploaded yet''))]
      else let query_lower = lower query;
               results = search_loop lower query_lower stored [];
               results = sort_key (\<lambda>x. - hit_relevance_score x) results
           in [(''results'', Hits (py_slice results 0 limit)),
               (''total_documents'', Number (int (length stored))),
               (''query'', Text query)])"

text \<open>
  \<^verbatim>\<open>
  async def search_documents(query: str, limit: int = 5):          # fixed_backend.py
      try:
          if not model_state.documents:
              return {"results": [], "total_documents": 0, "query": query}
          results = []
          query_lower = query.lower()
          for doc in model_state.documents:
              content_lower = doc["content"].lower()
              if query_lower in content_lower:
                  matches = content_lower.count(query_lower)
                  relevance = min(90, 60 + matches * 10)
                  start = content_lower.find(query_lower)
                  preview_start = max(0, start - 50)
                  preview_end = min(len(doc["content"]), start + 200)
                  preview = doc["content"][preview_start:preview_end]
                  results.append({"filename": doc["filename"], "content_preview": preview,
                                  "relevance_score": relevance, "matches": matches})
          results.sort(key=lambda x: x["relevance_score"], reverse=True)
          return {"results": results[:limit],
                  "total_documents": len(model_state.documents), "query": query}
      except Exception as e:
          raise HTTPException(status_code=500, detail=str(e))
  \<close>
\<close>

fun search_loop_fixed :: "(pystr \<Rightarrow> pystr) \<Rightarrow> pystr \<Rightarrow> stored_document list \<Rightarrow> search_hit list \<Rightarrow> search_hit list" where
  "search_loop_fixed lower query_lower [] results = results"
| "search_loop_fixed lower query_lower (doc # docs) results =
     (let content_lower = lower (sd_content doc)
      in search_loop_fixed lower query_lower docs
           (if contains query_lower content_lower
            then let matches = int (count content_lower query_lower);
                     relevance = min 90 (60 + matches * 10);
                     start = find content_lower query_lower;
                     preview_start = max 0 (start - 50);
                     preview_end = min (int (length (sd_content doc))) (start + 200);
                     preview = py_slice (sd_content doc) preview_start preview_end
                 in results @
                    [\<lparr>hit_filename = sd_filename doc,
                      hit_content_preview = preview,
                      hit_relevance_score = relevance,
                      hit_matches = matches\<rparr>]
            else results))"

definition search_documents_fixed :: "(pystr \<Rightarrow> pystr) \<Rightarrow> stored_document list \<Rightarrow> pystr \<Rightarrow> int \<Rightarrow> response" where
  "search_documents_fixed lower stored query limit =
     (if stored = []
      then [(''results'', Hits []), (''total_documents'', Number 0), (''query'', Text query)]
      else let query_lower = lower query;
               results = search_loop_fixed lower query_lower stored [];
               results = sort_key (\<lambda>x. - hit_relevance_score x) results
           in [(''results'', Hits (py_slice results 0 limit)),
               (''total_documents'', Number (int (length stored))),
               (''query'', Text query)])"

text \<open>
  \<^verbatim>\<open>str.lower\<close> on ASCII text, and two stored documents, for evaluating the search on
  concrete inputs.
\<close>

definition ascii_lower :: "pystr \<Rightarrow> pystr" where
  "ascii_lower s = map (\<lambda>c. if 65 \<le> c \<and> c \<le> 90 then c + 32 else c) s"

definition sample_documents :: "stored_document list" where
  "sample_documents =
     [\<lparr>sd_document_id = str ''doc_0'', sd_filename = str ''a.txt'',
       sd_content = str ''X y x z x'', sd_chunks = [str ''X y'', str ''x z'']\<rparr>,
      \<lparr>sd_document_id = str ''doc_1'', sd_filename = str ''b.txt'',
       sd_content = str ''x x x x'', sd_chunks = [str ''x'', str ''x x'', str ''x'']\<rparr>]"

text \<open>
  What a result entry of the search over chunks says about the stored documents: it
  counts at least one chunk, its score is \<open>min (85 + 10 * matches) 100\<close>, and some stored
  document has its file name and that many chunks whose lowered text contains the
  lowered query. \<open>content_hit\<close> is the same for the search over whole contents: the
  score is \<open>min 90 (60 + 10 * matches)\<close> and \<open>matches\<close> counts the occurrences of the
  lowered query in the lowered content.
\<close>

definition chunk_hit :: "(pystr \<Rightarrow> pystr) \<Rightarrow> stored_document list \<Rightarrow> pystr \<Rightarrow> search_hit \<Rightarrow> bool" where
  "chunk_hit lower stored query h \<longleftrightarrow>
     1 \<le> hit_matches h \<and>
     hit_relevance_score h = min (85 + hit_matches h * 10) 100 \<and>
     list_ex (\<lambda>doc. hit_filename h = sd_filename doc \<and>
                     hit_matches h =
                       int (length (filter (\<lambda>chunk. contains (lower query) (lower chunk))
                                      (sd_chunks doc))))
       stored"

definition content_hit :: "(pystr \<Rightarrow> pystr) \<Rightarrow> stored_document list \<Rightarrow> pystr \<Rightarrow> search_hit \<Rightarrow> bool" where
  "content_hit lower stored query h \<longleftrightarrow>
     hit_relevance_score h = min 90 (60 + hit_matches h * 10) \<and>
     list_ex (\<lambda>doc. hit_filename h = sd_filename doc \<and>
                     contains (lower query) (lower (sd_content doc)) \<and>
                     hit_matches h = int (count (lower (sd_content doc)) (lower query)))
       stored"

text \<open>
  The result entry that the loop of app.py builds for a stored document, and the
  entries of the documents that have a matching chunk, in storage order.
  \<open>content_result\<close> and \<open>content_results\<close> are the same for the loop of
  fixed_backend.py.
\<close>

definition chunk_result :: "(pystr \<Rightarrow> pystr) \<Rightarrow> pystr \<Rightarrow> stored_document \<Rightarrow> search_hit" where
  "chunk_result lower query_lower doc =
     (let matches = filter (\<lambda>chunk. contains query_lower (lower chunk)) (sd_chunks doc)
      in \<lparr>hit_filename = sd_filename doc,
          hit_content_preview =
            (if hd matches \<noteq> [] then py_slice (hd matches) 0 200 @ str ''...'' else []),
          hit_relevance_score = min (85 + int (length matches) * 10) 100,
          hit_matches = int (length matches)\<rparr>)"

definition chunk_results :: "(pystr \<Rightarrow> pystr) \<Rightarrow> pystr \<Rightarrow> stored_document list \<Rightarrow> search_hit list" where
  "chunk_results lower query stored =
     map (chunk_result lower (lower query))
       (filter (\<lambda>doc. filter (\<lambda>chunk. contains (lower query) (lower chunk)) (sd_chunks doc) \<noteq> [])
          stored)"

definition content_result :: "(pystr \<Rightarrow> pystr) \<Rightarrow> pystr \<Rightarrow> stored_document \<Rightarrow> search_hit" where
  "content_result lower query_lower doc =
     (let content_lower = lower (sd_content doc);
          matches = int (count content_lower query_lower);
          relevance = min 90 (60 + matches * 10);
          start = find content_lower query_lower;
          preview_start = max 0 (start - 50);
          preview_end = min (int (length (sd_content doc))) (start + 200);
          preview = py_slice (sd_content doc) preview_start preview_end
      in \<lparr>hit_filename = sd_filename doc,
          hit_content_preview = preview,
          hit_relevance_score = relevance,
          hit_matches = matches\<rparr>)"

definition content_results :: "(pystr \<Rightarrow> pystr) \<Rightarrow> pystr \<Rightarrow> stored_document list \<Rightarrow> search_hit list" where
  "content_results lower query stored =
     map (content_result lower (lower query))
       (filter (\<lambda>doc. contains (lower query) (lower (sd_content doc))) stored)"

section \<open>Facts about the string operations\<close>

lemma py_range_zero_step: "py_range start stop 0 = Inl ValueError"
  by (simp add: py_range_def)

lemma py_range_negative_step:
  assumes "step < 0" and "0 \<le> stop"
  shows "py_range 0 stop step = Inr []"
proof -
  have "(0 - stop - step - 1) div (- step) \<le> 0"
  proof -
    have "0 - stop - step - 1 < - step" using assms by simp
    moreover have "0 < - step" using assms by simp
    ultimately show ?thesis
      by (cases "0 \<le> 0 - stop - step - 1")
         (simp_all add: div_pos_pos_trivial div_neg_pos_less0 less_imp_le del: diff_0)
  qed
  then show ?thesis using assms by (simp add: py_range_def)
qed

lemma split_tokens:
  "w \<in> set (split s) \<Longrightarrow> w \<noteq> [] \<and> (\<forall>c\<in>set w. \<not> isspace c)"
proof (induction s rule: split.induct)
  case 1
  then show ?case by simp
next
  case (2 c cs)
  show ?case
  proof (cases "isspace c")
    case True
    with 2 show ?thesis by simp
  next
    case False
    then have "w = c # takeWhile (\<lambda>x. \<not> isspace x) cs \<or>
               w \<in> set (split (dropWhile (\<lambda>x. \<not> isspace x) cs))"
      using "2.prems" by simp
    then show ?thesis
    proof
      assume w: "w = c # takeWhile (\<lambda>x. \<not> isspace x) cs"
      have "\<forall>x\<in>set (takeWhile (\<lambda>x. \<not> isspace x) cs). \<not> isspace x"
        by (blast dest: set_takeWhileD)
      with w False show ?thesis by simp
    next
      assume "w \<in> set (split (dropWhile (\<lambda>x. \<not> isspace x) cs))"
      with False show ?thesis by (rule "2.IH"(2))
    qed
  qed
qed

lemma split_append_token:
  assumes "w \<noteq> []" and "\<forall>c\<in>set w. \<not> isspace c"
    and "rest = [] \<or> isspace (hd rest)"
  shows "split (w @ rest) = w # split rest"
proof -
  obtain c cs where w: "w = c # cs" using assms(1) by (cases w) auto
  have cs: "\<forall>x\<in>set cs. \<not> isspace x" and c: "\<not> isspace c" using assms(2) w by auto
  have t: "takeWhile (\<lambda>x. \<not> isspace x) rest = []"
    using assms(3) by (cases rest) auto
  have d: "dropWhile (\<lambda>x. \<not> isspace x) rest = rest"
    using assms(3) by (cases rest) auto
  have "takeWhile (\<lambda>x. \<not> isspace x) (cs @ rest) = cs"
    using cs t by (simp add: takeWhile_append2)
  moreover have "dropWhile (\<lambda>x. \<not> isspace x) (cs @ rest) = rest"
    using cs d by (simp add: dropWhile_append2)
  ultimately show ?thesis using w c by simp
qed

lemma space_32: "isspace 32"
  by (simp add: isspace_def)

lemma split_join:
  "\<forall>w\<in>set ws. w \<noteq> [] \<and> (\<forall>c\<in>set w. \<not> isspace c) \<Longrightarrow> split (join [32] ws) = ws"
proof (induction "[32::nat]" ws rule: join.induct)
  case 1
  then show ?case by simp
next
  case (2 w)
  then show ?case using split_append_token [of w "[]"] by simp
next
  case (3 w v ws)
  have "split (w @ (32 # join [32] (v # ws))) = w # split (32 # join [32] (v # ws))"
    using 3 by (intro split_append_token) (auto simp: space_32)
  then show ?case using 3 by (simp add: space_32)
qed

lemma strip_id:
  assumes "s \<noteq> []" and "\<not> isspace (hd s)" and "\<not> isspace (last s)"
  shows "strip s = s"
proof -
  have 1: "dropWhile isspace s = s" using assms by (cases s) auto
  have "rev s \<noteq> []" "\<not> isspace (hd (rev s))" using assms by (simp_all add: hd_rev)
  then have "dropWhile isspace (rev s) = rev s" by (cases "rev s") auto
  with 1 show ?thesis by (simp add: strip_def)
qed

lemma join_tokens_ends:
  "ws \<noteq> [] \<Longrightarrow> \<forall>w\<in>set ws. w \<noteq> [] \<and> (\<forall>c\<in>set w. \<not> isspace c) \<Longrightarrow>
     join [32] ws \<noteq> [] \<and> \<not> isspace (hd (join [32] ws)) \<and> \<not> isspace (last (join [32] ws))"
proof (induction "[32::nat]" ws rule: join.induct)
  case 1
  then show ?case by simp
next
  case (2 w)
  then show ?case by simp
next
  case (3 w v ws)
  then show ?case by (cases w) auto
qed

lemma strip_join:
  assumes "\<forall>w\<in>set ws. w \<noteq> [] \<and> (\<forall>c\<in>set w. \<not> isspace c)"
  shows "strip (join [32] ws) = join [32] ws"
proof (cases "ws = []")
  case True
  then show ?thesis by (simp add: strip_def)
next
  case False
  then show ?thesis using join_tokens_ends [OF False assms] by (intro strip_id) auto
qed

lemma chunk_loop_eq:
  "chunk_loop words chunk_size is chunks =
     chunks @ concat (map (\<lambda>i. if strip (join [32] (py_slice words i (i + chunk_size))) \<noteq> []
                                then [strip (join [32] (py_slice words i (i + chunk_size)))] else []) is)"
  by (induction "is" arbitrary: chunks) (simp_all add: Let_def)

lemma py_slice_window:
  assumes "0 \<le> i" and "0 \<le> sz"
  shows "py_slice xs i (i + sz) = take (nat sz) (drop (nat i) xs)"
proof (cases "i < int (length xs)")
  case True
  then show ?thesis using assms
    by (auto simp: py_slice_def Let_def min_def nat_diff_distrib' nat_add_distrib intro: take_all)
next
  case False
  then show ?thesis using assms by (simp add: py_slice_def Let_def min_def)
qed

lemma concat_blocks:
  "concat (map (\<lambda>j. take s (drop (j * s) xs)) [0..<M]) = take (M * s) xs"
proof (induction M)
  case 0
  then show ?case by simp
next
  case (Suc M)
  have "take (M * s) xs @ take s (drop (M * s) xs) = take (M * s + s) xs"
    by (simp only: take_add)
  with Suc show ?case by (simp add: add.commute)
qed

lemma py_range_positive_step:
  assumes "0 < step"
  shows "py_range 0 (int n) step =
           Inr (map (\<lambda>k. int (k * nat step)) [0..<(n + nat step - 1) div nat step])"
proof -
  obtain s where s: "step = int s" and pos: "0 < s"
    using assms by (intro that [of "nat step"]) auto
  have "int n - 0 + int s - 1 = int (n + s - 1)" using pos by (simp add: of_nat_diff)
  then have "nat ((int n - 0 + int s - 1) div int s) = (n + s - 1) div s"
    by (simp only: zdiv_int [symmetric] nat_int)
  then show ?thesis using pos s by (simp add: py_range_def)
qed

lemma window_index_in_range:
  assumes "0 < s" and "k < (n + s - 1) div s"
  shows "k * s < (n::nat)"
proof -
  have "Suc k \<le> (n + s - 1) div s" using assms by simp
  then have "Suc k * s \<le> n + s - 1"
    using assms(1) by (simp add: less_eq_div_iff_mult_less_eq)
  then show ?thesis using assms(1) by simp
qed

lemma window_tokens:
  "w \<in> set (take a (drop b (split s))) \<Longrightarrow> w \<noteq> [] \<and> (\<forall>c\<in>set w. \<not> isspace c)"
  by (meson in_set_takeD in_set_dropD split_tokens)

lemma join_window_nonempty:
  assumes "0 < a" and "b < length (split s)"
  shows "join [32] (take a (drop b (split s))) \<noteq> []"
proof -
  have "take a (drop b (split s)) \<noteq> []" using assms by simp
  then show ?thesis
    using join_tokens_ends [of "take a (drop b (split s))"] window_tokens by blast
qed

lemma chunk_body_windows:
  assumes "0 < sz" and "\<forall>k\<in>set ks. k * s < length (split content)"
  shows "concat (map (\<lambda>i. if strip (join [32] (py_slice (split content) i (i + int sz))) \<noteq> []
                           then [strip (join [32] (py_slice (split content) i (i + int sz)))]
                           else [])
                     (map (\<lambda>k. int (k * s)) ks)) =
         map (\<lambda>k. join [32] (take sz (drop (k * s) (split content)))) ks"
  using assms(2)
proof (induction ks)
  case Nil
  then show ?case by simp
next
  case (Cons k ks)
  have sl: "py_slice (split content) (int (k * s)) (int (k * s) + int sz) =
            take sz (drop (k * s) (split content))"
    using py_slice_window [of "int (k * s)" "int sz" "split content"]
    by (simp del: of_nat_mult)
  have st: "strip (join [32] (take sz (drop (k * s) (split content)))) =
            join [32] (take sz (drop (k * s) (split content)))"
    by (rule strip_join) (use window_tokens in blast)
  have ne: "join [32] (take sz (drop (k * s) (split content))) \<noteq> []"
    using Cons.prems assms(1) by (intro join_window_nonempty) auto
  show ?case using Cons sl st ne by (simp del: of_nat_mult)
qed

lemma chunk_document_windows:
  assumes "0 \<le> overlap" and "overlap < chunk_size"
  shows "chunk_document content chunk_size overlap =
           Inr (map (join [32])
                  (sliding_windows (nat chunk_size) (nat (chunk_size - overlap)) (split content)))"
proof -
  let ?s = "nat (chunk_size - overlap)"
  let ?n = "length (split content)"
  have pos: "0 < chunk_size - overlap" "0 < ?s" "0 < nat chunk_size" using assms by simp_all
  have cs: "int (nat chunk_size) = chunk_size" using assms by simp
  have r: "py_range 0 (int ?n) (chunk_size - overlap) =
             Inr (map (\<lambda>k. int (k * ?s)) [0..<(?n + ?s - 1) div ?s])"
    using pos(1) by (rule py_range_positive_step)
  have "\<forall>k\<in>set [0..<(?n + ?s - 1) div ?s]. k * ?s < ?n"
    using window_index_in_range [OF pos(2)] by simp
  from chunk_body_windows [OF pos(3) this]
  have body: "concat (map (\<lambda>i. if strip (join [32] (py_slice (split content) i (i + chunk_size))) \<noteq> []
                           then [strip (join [32] (py_slice (split content) i (i + chunk_size)))]
                           else [])
                     (map (\<lambda>k. int (k * ?s)) [0..<(?n + ?s - 1) div ?s])) =
         map (\<lambda>k. join [32] (take (nat chunk_size) (drop (k * ?s) (split content))))
             [0..<(?n + ?s - 1) div ?s]"
    unfolding cs .
  have loop: "chunk_loop (split content) chunk_size
            (map (\<lambda>k. int (k * ?s)) [0..<(?n + ?s - 1) div ?s]) [] =
        map (\<lambda>k. join [32] (take (nat chunk_size) (drop (k * ?s) (split content))))
            [0..<(?n + ?s - 1) div ?s]"
    by (simp only: chunk_loop_eq append_Nil body)
  show ?thesis
    by (simp only: chunk_document_def Let_def r sum.case loop sliding_windows_def map_map comp_def)
qed

lemma split_join_windows:
  "map split (map (join [32]) (sliding_windows a b (split s))) = sliding_windows a b (split s)"
proof -
  have "\<forall>w\<in>set (sliding_windows a b (split s)). split (join [32] w) = w"
    using window_tokens by (auto simp: sliding_windows_def intro!: split_join)
  then show ?thesis by (simp add: map_idI)
qed

lemma sliding_windows_nonempty:
  assumes "0 < a" and "0 < b"
  shows "[] \<notin> set (sliding_windows a b ws)"
proof
  assume "[] \<in> set (sliding_windows a b ws)"
  then obtain k where k: "k < (length ws + b - 1) div b" and e: "take a (drop (k * b) ws) = []"
    by (auto simp: sliding_windows_def)
  from window_index_in_range [OF assms(2) k] have "k * b < length ws" .
  with e assms(1) show False by simp
qed

lemma split_all_space: "\<forall>c\<in>set s. isspace c \<Longrightarrow> split s = []"
  by (induction s) simp_all

lemma py_range_empty_stop:
  assumes "step \<noteq> 0"
  shows "py_range 0 0 step = Inr []"
proof (cases "0 < step")
  case True
  then have "(step - 1) div step = 0" by (simp add: div_pos_pos_trivial)
  with True show ?thesis by (simp add: py_range_def)
next
  case False
  with assms have "step < 0" by simp
  then show ?thesis by (rule py_range_negative_step) simp
qed

lemma sliding_windows_single:
  assumes "0 < length ws" and "length ws \<le> b" and "b \<le> a"
  shows "sliding_windows a b ws = [ws]"
proof -
  have "(length ws + b - 1) div b = 1"
  proof -
    have "b \<le> length ws + b - 1" "length ws + b - 1 < 2 * b" using assms by arith+
    then show ?thesis
      by (metis One_nat_def Suc_1 div_nat_eqI mult.commute mult.right_neutral mult_Suc_right plus_1_eq_Suc)
  qed
  then show ?thesis using assms by (simp add: sliding_windows_def)
qed

lemma sliding_windows_cover:
  assumes "0 < s"
  shows "concat (case sliding_windows (s + ov) s ws of [] \<Rightarrow> []
                 | w # rest \<Rightarrow> w # map (drop ov) rest) = ws"
proof (cases "length ws = 0")
  case True
  moreover have "(s - 1) div s = 0" using assms by simp
  ultimately show ?thesis by (simp add: sliding_windows_def)
next
  case False
  let ?N = "(length ws + s - 1) div s"
  have "s \<le> length ws + s - 1" using False by arith
  then have "0 < ?N" using assms by (simp add: div_greater_zero_iff)
  then obtain M where N: "?N = Suc M" by (cases ?N) auto
  have big: "length ws \<le> ?N * s"
  proof -
    have "length ws + s - 1 < ?N * s + s"
      using assms by (metis dividend_less_div_times add.commute mult.commute)
    then show ?thesis by simp
  qed
  have upt: "[0..<Suc M] = 0 # map Suc [0..<M]"
    by (simp add: upt_conv_Cons map_Suc_upt del: upt_Suc)
  have sw: "sliding_windows (s + ov) s ws =
            take (s + ov) ws # map (\<lambda>k. take (s + ov) (drop (Suc k * s) ws)) [0..<M]"
    unfolding sliding_windows_def N upt by (simp add: comp_def del: upt_Suc)
  have "map (drop ov) (map (\<lambda>k. take (s + ov) (drop (Suc k * s) ws)) [0..<M]) =
        map (\<lambda>j. take s (drop (j * s) (drop (s + ov) ws))) [0..<M]"
    by (simp add: drop_take add.commute add.left_commute add.assoc)
  then have "concat (map (drop ov) (map (\<lambda>k. take (s + ov) (drop (Suc k * s) ws)) [0..<M])) =
             take (M * s) (drop (s + ov) ws)"
    by (simp only: concat_blocks)
  moreover have "take (M * s) (drop (s + ov) ws) = drop (s + ov) ws"
    using big N by simp
  ultimately show ?thesis unfolding sw by simp
qed

section \<open>Facts about the index and the search\<close>

lemma semantic_search_returns_nothing:
  "semantic_search json_loads conn query_embedding limit distance_threshold = []"
  by (simp add: semantic_search_def semantic_search_try_def execute_select_def)

lemma sqlite_bind_errors: "sqlite_bind v = Some e \<Longrightarrow> e = Sqlite3Error \<or> e = OverflowError"
  by (cases v) (auto split: if_splits)

lemma add_document_try_error_committed:
  assumes "add_document_with_embeddings_try faults json_dumps conn filename content
             processed_data embedding metadata = (conn', Inl e)"
  shows "committed conn' = committed conn"
  using assms
  by (auto simp: add_document_with_embeddings_try_def insert_document_def insert_embedding_def
        commit_def Let_def split: sum.splits if_splits prod.splits option.splits)

lemma add_document_try_error_kind:
  assumes "add_document_with_embeddings_try faults json_dumps conn filename content
             processed_data embedding metadata = (conn', Inl e)"
  shows "e = Sqlite3Error \<or>
         e = OverflowError \<and>
         (sqlite_bind (dict_get processed_data ''cleaned_content'' (PStr content)) =
            Some OverflowError \<or>
          sqlite_bind (dict_get processed_data ''word_count''
                         (PInt (int (length (split content))))) = Some OverflowError)"
  using assms
  by (auto simp: add_document_with_embeddings_try_def insert_document_def insert_embedding_def
        commit_def Let_def
        split: sum.splits if_splits prod.splits option.splits dest: sqlite_bind_errors)

lemma add_document_try_fault_raises:
  assumes "faults InsertDocument \<or> faults InsertEmbedding \<or> faults Commit"
  shows "\<exists>conn' e. add_document_with_embeddings_try faults json_dumps conn filename content
             processed_data embedding metadata = (conn', Inl e)"
  using assms
  by (auto simp: add_document_with_embeddings_try_def insert_document_def insert_embedding_def
        commit_def Let_def split: sum.splits if_splits prod.splits option.splits)

lemma insert_document_Inr:
  assumes "insert_document faults conn row = Inr (conn1, rowid)"
  shows "working conn1 =
           (working conn)\<lparr>documents := documents (working conn) @ [row\<lparr>doc_id := rowid\<rparr>],
                           sqlite_sequence := rowid\<rparr>"
  using assms
  by (auto simp: insert_document_def Let_def working_def split: if_splits option.splits)

lemma insert_embedding_Inr:
  assumes "insert_embedding faults conn1 document_id embedding = Inr conn2"
  shows "working conn2 =
           (working conn1)\<lparr>document_embeddings :=
              document_embeddings (working conn1) @ [(document_id, embedding)]\<rparr>"
  using assms by (auto simp: insert_embedding_def working_def split: if_splits)

lemma commit_Inr:
  assumes "commit faults conn2 = Inr conn3"
  shows "committed conn3 = working conn2 \<and> pending conn3 = None"
  using assms by (auto simp: commit_def split: if_splits)

lemma add_document_success_paired:
  assumes "add_document_with_embeddings faults json_dumps conn filename content
             processed_data embedding metadata = (conn', Inr document_id)"
    and "paired (working conn)"
  shows "paired (committed conn') \<and> pending conn' = None"
proof -
  from assms(1) obtain row conn1 conn2 where
    1: "insert_document faults conn row = Inr (conn1, document_id)" and
    2: "insert_embedding faults conn1 document_id embedding = Inr conn2" and
    3: "commit faults conn2 = Inr conn'"
    by (auto simp: add_document_with_embeddings_def add_document_with_embeddings_try_def
          Let_def split: sum.splits prod.splits)
  have "committed conn' =
          (working conn)\<lparr>documents := documents (working conn) @ [row\<lparr>doc_id := document_id\<rparr>],
                          sqlite_sequence := document_id,
                          document_embeddings :=
                            document_embeddings (working conn) @ [(document_id, embedding)]\<rparr>"
    using commit_Inr [OF 3] insert_embedding_Inr [OF 2] insert_document_Inr [OF 1] by simp
  then have "paired (committed conn')" using assms(2) by (simp add: paired_def)
  then show ?thesis using commit_Inr [OF 3] by simp
qed

lemma set_py_slice: "set (py_slice xs a b) \<subseteq> set xs"
  unfolding py_slice_def Let_def
  by (meson set_take_subset set_drop_subset subset_trans)

lemma sorted_py_slice:
  assumes "sorted (map f xs)"
  shows "sorted (map f (py_slice xs a b))"
proof -
  have "map f (py_slice xs a b) = py_slice (map f xs) a b"
    by (simp add: py_slice_def Let_def take_map drop_map)
  also have "sorted \<dots>"
    using assms unfolding py_slice_def Let_def by (intro sorted_wrt_take sorted_wrt_drop)
  finally show ?thesis .
qed

lemma search_loop_hits:
  assumes "set docs \<subseteq> set stored" and "list_all (chunk_hit lower stored query) acc"
  shows "list_all (chunk_hit lower stored query) (search_loop lower (lower query) docs acc)"
  using assms
proof (induction docs arbitrary: acc)
  case Nil
  then show ?case by simp
next
  case (Cons doc docs)
  let ?matches = "filter (\<lambda>chunk. contains (lower query) (lower chunk)) (sd_chunks doc)"
  let ?hit = "\<lparr>hit_filename = sd_filename doc,
               hit_content_preview =
                 (if hd ?matches \<noteq> [] then py_slice (hd ?matches) 0 200 @ str ''...'' else []),
               hit_relevance_score = min (85 + int (length ?matches) * 10) 100,
               hit_matches = int (length ?matches)\<rparr>"
  have doc: "doc \<in> set stored" and docs: "set docs \<subseteq> set stored" using Cons.prems(1) by auto
  show ?case
  proof (cases "?matches = []")
    case True
    then show ?thesis using Cons.IH [OF docs Cons.prems(2)] by simp
  next
    case False
    then have "1 \<le> int (length ?matches)" by (cases ?matches) auto
    then have "chunk_hit lower stored query ?hit"
      using doc by (auto simp: chunk_hit_def list_ex_iff)
    then have "list_all (chunk_hit lower stored query) (acc @ [?hit])"
      using Cons.prems(2) by simp
    from Cons.IH [OF docs this] show ?thesis using False by (simp add: Let_def)
  qed
qed

lemma search_loop_fixed_hits:
  assumes "set docs \<subseteq> set stored" and "list_all (content_hit lower stored query) acc"
  shows "list_all (content_hit lower stored query)
           (search_loop_fixed lower (lower query) docs acc)"
  using assms
proof (induction docs arbitrary: acc)
  case Nil
  then show ?case by simp
next
  case (Cons doc docs)
  have doc: "doc \<in> set stored" and docs: "set docs \<subseteq> set stored" using Cons.prems(1) by auto
  show ?case
  proof (cases "contains (lower query) (lower (sd_content doc))")
    case False
    then show ?thesis using Cons.IH [OF docs Cons.prems(2)] by simp
  next
    case True
    let ?c = "lower (sd_content doc)"
    let ?hit = "\<lparr>hit_filename = sd_filename doc,
               hit_content_preview =
                 py_slice (sd_content doc) (max 0 (find ?c (lower query) - 50))
                   (min (int (length (sd_content doc))) (find ?c (lower query) + 200)),
               hit_relevance_score = min 90 (60 + int (count ?c (lower query)) * 10),
               hit_matches = int (count ?c (lower query))\<rparr>"
    have "content_hit lower stored query ?hit"
      using doc True by (auto simp: content_hit_def list_ex_iff)
    then have "list_all (content_hit lower stored query) (acc @ [?hit])"
      using Cons.prems(2) by simp
    from Cons.IH [OF docs this] show ?thesis using True by (simp add: Let_def)
  qed
qed

lemma list_all_py_slice_sort:
  assumes "list_all P xs"
  shows "list_all P (py_slice (sort_key f xs) a b)"
  using assms set_py_slice [of "sort_key f xs" a b] by (auto simp: list_all_iff)

lemma search_loop_results:
  "search_loop lower query_lower docs acc =
     acc @ map (chunk_result lower query_lower)
             (filter (\<lambda>doc. filter (\<lambda>chunk. contains query_lower (lower chunk)) (sd_chunks doc) \<noteq> [])
                docs)"
  by (induction docs arbitrary: acc) (simp_all add: Let_def chunk_result_def)

lemma search_loop_fixed_results:
  "search_loop_fixed lower query_lower docs acc =
     acc @ map (content_result lower query_lower)
             (filter (\<lambda>doc. contains query_lower (lower (sd_content doc))) docs)"
  by (induction docs arbitrary: acc) (simp_all add: Let_def content_result_def)

lemma search_documents_results:
  "map_of (search_documents lower stored query limit) ''results'' =
     Some (Hits (py_slice (sort_key (\<lambda>x. - hit_relevance_score x)
                             (chunk_results lower query stored)) 0 limit))"
proof (cases "stored = []")
  case True
  then show ?thesis by (simp add: search_documents_def chunk_results_def py_slice_def)
next
  case False
  then show ?thesis
    by (simp add: search_documents_def Let_def chunk_results_def search_loop_results)
qed

lemma search_documents_fixed_results:
  "map_of (search_documents_fixed lower stored query limit) ''results'' =
     Some (Hits (py_slice (sort_key (\<lambda>x. - hit_relevance_score x)
                             (content_results lower query stored)) 0 limit))"
proof (cases "stored = []")
  case True
  then show ?thesis by (simp add: search_documents_fixed_def content_results_def py_slice_def)
next
  case False
  then show ?thesis
    by (simp add: search_documents_fixed_def Let_def content_results_def
          search_loop_fixed_results)
qed

lemma sort_by_score_stable:
  "filter (\<lambda>h. hit_relevance_score h = k) (sort_key (\<lambda>x. - hit_relevance_score x) hs) =
   filter (\<lambda>h. hit_relevance_score h = k) hs"
  using sort_key_stable [of "\<lambda>x. - hit_relevance_score x" "- k" hs] by simp

lemma chunk_results_hits:
  "list_all (chunk_hit lower stored query) (chunk_results lower query stored)"
  using search_loop_hits [of stored stored lower query "[]"]
  by (simp add: chunk_results_def search_loop_results)

lemma content_results_hits:
  "list_all (content_hit lower stored query) (content_results lower query stored)"
  using search_loop_fixed_hits [of stored stored lower query "[]"]
  by (simp add: content_results_def search_loop_fixed_results)

lemma chunk_results_sample:
  "chunk_results ascii_lower (str ''x'') sample_documents =
     [\<lparr>hit_filename = str ''a.txt'', hit_content_preview = str ''X y...'',
        hit_relevance_score = 100, hit_matches = 2\<rparr>,
      \<lparr>hit_filename = str ''b.txt'', hit_content_preview = str ''x...'',
        hit_relevance_score = 100, hit_matches = 3\<rparr>]"
  by code_simp

lemma content_results_sample:
  "content_results ascii_lower (str ''x'') sample_documents =
     [\<lparr>hit_filename = str ''a.txt'', hit_content_preview = str ''X y x z x'',
        hit_relevance_score = 90, hit_matches = 3\<rparr>,
      \<lparr>hit_filename = str ''b.txt'', hit_content_preview = str ''x x x x'',
        hit_relevance_score = 90, hit_matches = 4\<rparr>]"
  by code_simp

lemma search_documents_sample:
  "search_documents ascii_lower sample_documents (str ''x'') 5 =
     [(''results'',
       Hits [\<lparr>hit_filename = str ''a.txt'', hit_content_preview = str ''X y...'',
               hit_relevance_score = 100, hit_matches = 2\<rparr>,
             \<lparr>hit_filename = str ''b.txt'', hit_content_preview = str ''x...'',
               hit_relevance_score = 100, hit_matches = 3\<rparr>]),
      (''total_documents'', Number 2), (''query'', Text (str ''x''))]"
  by code_simp

lemma search_documents_fixed_sample:
  "search_documents_fixed ascii_lower sample_documents (str ''x'') 5 =
     [(''results'',
       Hits [\<lparr>hit_filename = str ''a.txt'', hit_content_preview = str ''X y x z x'',
               hit_relevance_score = 90, hit_matches = 3\<rparr>,
             \<lparr>hit_filename = str ''b.txt'', hit_content_preview = str ''x x x x'',
               hit_relevance_score = 90, hit_matches = 4\<rparr>]),
      (''total_documents'', Number 2), (''query'', Text (str ''x''))]"
  by code_simp

section \<open>Claims about the chunker\<close>

text \<open>
  Claim C4, as amended. The chunker has no check of its configuration. When
  \<open>overlap = chunk_size\<close> the step of \<^verbatim>\<open>range\<close> is zero and Python's
  \<^verbatim>\<open>ValueError\<close> is raised, for every input; when \<open>overlap > chunk_size\<close> the
  step is negative, the range is empty and the chunker returns the empty chunk list,
  for every input.
\<close>

theorem chunk_document_overlap_ge_size:
  assumes "chunk_size \<le> overlap"
  shows "chunk_document content chunk_size overlap =
           (if overlap = chunk_size then Inl ValueError else Inr [])"
proof (cases "overlap = chunk_size")
  case True
  then show ?thesis by (simp add: chunk_document_def py_range_zero_step)
next
  case False
  with assms have "chunk_size - overlap < 0" by simp
  then have "py_range 0 (int (length (split content))) (chunk_size - overlap) = Inr []"
    by (rule py_range_negative_step) simp
  with False show ?thesis by (simp add: chunk_document_def)
qed

theorem chunk_document_overlap_ge_size_witness:
  "(5::int) \<le> 5 \<and> chunk_document (str ''a b'') 5 5 = Inl ValueError"
  using chunk_document_overlap_ge_size [of 5 5 "str ''a b''"] by simp

text \<open>
  The claim C4 as written fails: with \<open>overlap = 7 > chunk_size = 5\<close> the chunker
  returns a chunk list (the empty one) and raises nothing.
\<close>

theorem chunk_document_overlap_gt_returns:
  "chunk_document (str ''a b'') 5 7 = Inr []"
  by (simp add: chunk_document_def py_range_def str_def isspace_def)

text \<open>
  Claim C3. For a configuration with \<open>0 \<le> overlap < chunk_size\<close> the chunker
  returns the sliding windows of \<open>chunk_size\<close> tokens over the whitespace token
  stream of the input, one window for every start \<open>0, step, 2 * step, \<dots>\<close> below
  the number of tokens, with \<open>step = chunk_size - overlap\<close>; each window is joined
  with single spaces, splitting a chunk gives its window back, and no window is empty.
  For an input of exactly 12 tokens, \<open>chunk_size = 5\<close> and \<open>overlap = 0\<close>, there are
  exactly three chunks, of 5, 5 and 2 tokens.
\<close>

theorem chunk_document_sliding_windows:
  "(0 \<le> overlap \<and> overlap < chunk_size \<longrightarrow>
      (\<exists>chunks. chunk_document content chunk_size overlap = Inr chunks \<and>
         chunks = map (join [32])
                    (sliding_windows (nat chunk_size) (nat (chunk_size - overlap)) (split content)) \<and>
         map split chunks =
           sliding_windows (nat chunk_size) (nat (chunk_size - overlap)) (split content) \<and>
         [] \<notin> set (map split chunks))) \<and>
   (length (split content) = 12 \<longrightarrow>
      (\<exists>c1 c2 c3. chunk_document content 5 0 = Inr [c1, c2, c3] \<and>
         length (split c1) = 5 \<and> length (split c2) = 5 \<and> length (split c3) = 2))"
proof (intro conjI impI)
  assume cfg: "0 \<le> overlap \<and> overlap < chunk_size"
  let ?ws = "sliding_windows (nat chunk_size) (nat (chunk_size - overlap)) (split content)"
  have 1: "chunk_document content chunk_size overlap = Inr (map (join [32]) ?ws)"
    using cfg by (simp add: chunk_document_windows)
  have 2: "map split (map (join [32]) ?ws) = ?ws" by (rule split_join_windows)
  have 3: "[] \<notin> set ?ws" using cfg by (intro sliding_windows_nonempty) simp_all
  show "\<exists>chunks. chunk_document content chunk_size overlap = Inr chunks \<and>
         chunks = map (join [32]) ?ws \<and> map split chunks = ?ws \<and> [] \<notin> set (map split chunks)"
    using 1 2 3 by (intro exI [of _ "map (join [32]) ?ws"]) (simp only: simp_thms)
next
  assume n: "length (split content) = 12"
  let ?ws = "sliding_windows 5 5 (split content)"
  have 1: "chunk_document content 5 0 = Inr (map (join [32]) ?ws)"
    using chunk_document_windows [where content = content and chunk_size = 5 and overlap = 0] by simp
  have 2: "map split (map (join [32]) ?ws) = ?ws" by (rule split_join_windows)
  have upt: "[0..<3] = [0, 1, 2::nat]" by (simp add: upt_rec)
  have 3: "?ws = [take 5 (split content), take 5 (drop 5 (split content)),
                  take 5 (drop 10 (split content))]"
    by (simp add: sliding_windows_def n upt)
  have "map (\<lambda>c. length (split c)) (map (join [32]) ?ws) = map length ?ws"
    using arg_cong [OF 2, of "map length"] by (simp add: comp_def)
  also have "\<dots> = [5, 5, 2]" unfolding 3 using n by simp
  finally have 4: "map (\<lambda>c. length (split c)) (map (join [32]) ?ws) = [5, 5, 2]" .
  show "\<exists>c1 c2 c3. chunk_document content 5 0 = Inr [c1, c2, c3] \<and>
         length (split c1) = 5 \<and> length (split c2) = 5 \<and> length (split c3) = 2"
    using 1 4 unfolding 3 by simp
qed

theorem chunk_document_sliding_windows_witness:
  "(0::int) \<le> 1 \<and> (1::int) < 3 \<and>
   chunk_document (str ''a b c d'') 3 1 = Inr [str ''a b c'', str ''c d''] \<and>
   length (split (str ''a b c d e f g h i j k l'')) = 12 \<and>
   chunk_document (str ''a b c d e f g h i j k l'') 5 0 =
     Inr [str ''a b c d e'', str ''f g h i j'', str ''k l'']"
proof -
  have a: "chunk_document (str ''a b c d'') 3 1 = Inr [str ''a b c'', str ''c d'']"
    using chunk_document_sliding_windows [where content = "str ''a b c d''" and chunk_size = 3 and overlap = 1]
    by (simp add: str_def isspace_def sliding_windows_def upt_rec)
  have n: "length (split (str ''a b c d e f g h i j k l'')) = 12"
    by (simp add: str_def isspace_def)
  have b: "chunk_document (str ''a b c d e f g h i j k l'') 5 0 =
     Inr [str ''a b c d e'', str ''f g h i j'', str ''k l'']"
    using chunk_document_sliding_windows [where content = "str ''a b c d e f g h i j k l''" and chunk_size = 5 and overlap = 0]
    by (simp add: str_def isspace_def sliding_windows_def upt_rec)
  show ?thesis using a n b by simp
qed

text \<open>
  Claim C5, as amended. An empty or whitespace-only input gives zero chunks, for every
  configuration with \<open>chunk_size \<noteq> overlap\<close>. An input whose token count is positive
  and at most \<open>chunk_size - overlap\<close> (with \<open>0 \<le> overlap\<close>) gives exactly one chunk,
  and its text is the tokens of the input joined by single spaces.
\<close>

theorem chunk_document_small_inputs:
  "((\<forall>c\<in>set content. isspace c) \<and> chunk_size \<noteq> overlap \<longrightarrow>
      chunk_document content chunk_size overlap = Inr []) \<and>
   (0 \<le> overlap \<and> 0 < length (split content) \<and>
    int (length (split content)) \<le> chunk_size - overlap \<longrightarrow>
      chunk_document content chunk_size overlap = Inr [join [32] (split content)])"
proof (intro conjI impI)
  assume a: "(\<forall>c\<in>set content. isspace c) \<and> chunk_size \<noteq> overlap"
  then have "split content = []" by (simp add: split_all_space)
  moreover have "py_range 0 0 (chunk_size - overlap) = Inr []"
    using a by (intro py_range_empty_stop) simp
  ultimately show "chunk_document content chunk_size overlap = Inr []"
    by (simp add: chunk_document_def)
next
  assume a: "0 \<le> overlap \<and> 0 < length (split content) \<and>
             int (length (split content)) \<le> chunk_size - overlap"
  then have "0 < int (length (split content))" by simp
  with a have cfg: "0 \<le> overlap" "overlap < chunk_size" by linarith+
  have "sliding_windows (nat chunk_size) (nat (chunk_size - overlap)) (split content) =
        [split content]"
    using a by (intro sliding_windows_single) auto
  then show "chunk_document content chunk_size overlap = Inr [join [32] (split content)]"
    using chunk_document_windows [OF cfg, of content] by simp
qed

theorem chunk_document_small_inputs_witness:
  "list_all isspace (str ''  '') \<and> (5::int) \<noteq> 0 \<and>
   chunk_document (str ''  '') 5 0 = Inr [] \<and>
   (0::int) \<le> 2 \<and> 0 < length (split (str '' a  b '')) \<and>
   int (length (split (str '' a  b ''))) \<le> 5 - 2 \<and>
   chunk_document (str '' a  b '') 5 2 = Inr [str ''a b'']"
  using chunk_document_small_inputs [where content = "str ''  ''" and chunk_size = 5 and overlap = 0]
        chunk_document_small_inputs [where content = "str '' a  b ''" and chunk_size = 5 and overlap = 2]
  by (simp add: str_def isspace_def list_all_iff)

text \<open>
  The claim C5 as written fails twice. The input \<^verbatim>\<open>"a  b"\<close> (two spaces) has two tokens,
  fewer than \<open>chunk_size = 5\<close>, and its one chunk is \<^verbatim>\<open>"a b"\<close>, not the trimmed input.
  The input \<^verbatim>\<open>"a b c"\<close> has three tokens, fewer than \<open>chunk_size = 5\<close>, and with
  \<open>overlap = 4\<close> it gives three chunks.
\<close>

theorem chunk_document_short_input_counterexample:
  "0 < length (split (str ''a  b'')) \<and> int (length (split (str ''a  b''))) < 5 \<and>
   chunk_document (str ''a  b'') 5 0 = Inr [str ''a b''] \<and>
   strip (str ''a  b'') = str ''a  b'' \<and>
   str ''a b'' \<noteq> str ''a  b'' \<and>
   0 < length (split (str ''a b c'')) \<and> int (length (split (str ''a b c''))) < 5 \<and>
   chunk_document (str ''a b c'') 5 4 = Inr [str ''a b c'', str ''b c'', str ''c'']"
  by (simp add: chunk_document_def py_range_def py_slice_def strip_def str_def isspace_def
        upt_rec)

text \<open>
  Claim C6. For every input and every configuration with \<open>0 \<le> overlap < chunk_size\<close>
  the chunker returns chunks, and the concatenation of their unique token spans (the
  first chunk whole, every later chunk without the \<open>overlap\<close> tokens it shares with the
  chunk before it), in chunk order, is the whitespace token stream of the input.
\<close>

theorem chunk_document_coverage:
  assumes "0 \<le> overlap" and "overlap < chunk_size"
  shows "\<exists>chunks. chunk_document content chunk_size overlap = Inr chunks \<and>
           concat (unique_spans (nat overlap) chunks) = split content"
proof -
  let ?s = "nat (chunk_size - overlap)"
  let ?ws = "sliding_windows (?s + nat overlap) ?s (split content)"
  have sz: "nat chunk_size = ?s + nat overlap" using assms by simp
  have 1: "chunk_document content chunk_size overlap = Inr (map (join [32]) ?ws)"
    using chunk_document_windows [OF assms, of content] unfolding sz .
  have 2: "map split (map (join [32]) ?ws) = ?ws" by (rule split_join_windows)
  have "unique_spans (nat overlap) (map (join [32]) ?ws) =
          (case map split (map (join [32]) ?ws) of [] \<Rightarrow> []
           | w # rest \<Rightarrow> w # map (drop (nat overlap)) rest)"
    by (cases ?ws) (simp_all add: comp_def)
  then have "concat (unique_spans (nat overlap) (map (join [32]) ?ws)) = split content"
    unfolding 2 using sliding_windows_cover [of ?s "nat overlap" "split content"] assms
    by simp
  with 1 show ?thesis by blast
qed

theorem chunk_document_coverage_witness:
  "(0::int) \<le> 1 \<and> (1::int) < 3 \<and>
   chunk_document (str ''a b c d'') 3 1 = Inr [str ''a b c'', str ''c d''] \<and>
   concat (unique_spans (nat 1) [str ''a b c'', str ''c d'']) = split (str ''a b c d'')"
proof -
  have c: "chunk_document (str ''a b c d'') 3 1 = Inr [str ''a b c'', str ''c d'']"
    by (simp add: chunk_document_def py_range_def py_slice_def strip_def str_def isspace_def
        upt_rec)
  from chunk_document_coverage [where content = "str ''a b c d''" and chunk_size = 3 and overlap = 1]
  have "concat (unique_spans (nat 1) [str ''a b c'', str ''c d'']) = split (str ''a b c d'')"
    unfolding c by simp
  with c show ?thesis by simp
qed

section \<open>Claims about the embedding provider\<close>

text \<open>
  Claim C9, as amended. When the call of the backend on the whole batch raises, the
  batch operation returns the zero vector of length 384 at every position, as many as
  there are texts. When that call succeeds with one vector per text, each of them the
  vector that the backend returns for that text alone, the batch operation returns, in
  order, what the single-text operation returns for each text.
\<close>

theorem generate_batch_embeddings_itemwise:
  "(encode texts = Inl e \<longrightarrow>
      generate_batch_embeddings encode astype texts =
        replicate (length texts) (replicate 384 0)) \<and>
   (encode texts = Inr vs \<and> length vs = length texts \<and>
    list_all (\<lambda>i. encode [texts ! i] = Inr [vs ! i]) [0..<length texts] \<longrightarrow>
      generate_batch_embeddings encode astype texts =
        map (generate_embeddings encode astype) texts)"
proof (intro conjI impI)
  assume "encode texts = Inl e"
  then show "generate_batch_embeddings encode astype texts =
        replicate (length texts) (replicate 384 0)"
    by (simp add: generate_batch_embeddings_def map_replicate_const)
next
  assume a: "encode texts = Inr vs \<and> length vs = length texts \<and>
    list_all (\<lambda>i. encode [texts ! i] = Inr [vs ! i]) [0..<length texts]"
  then have single: "\<And>i. i < length texts \<Longrightarrow>
      generate_embeddings encode astype (texts ! i) = map astype (vs ! i)"
    by (simp add: list_all_iff generate_embeddings_def generate_embeddings_try_def)
  have "map (map astype) vs = map (generate_embeddings encode astype) texts"
    using a single by (intro nth_equalityI) simp_all
  with a show "generate_batch_embeddings encode astype texts =
        map (generate_embeddings encode astype) texts"
    by (simp add: generate_batch_embeddings_def)
qed

text \<open>
  Both cases on the backend that rejects the empty text: a batch with the empty text,
  and a batch of two accepted texts.
\<close>

theorem generate_batch_embeddings_itemwise_witness:
  "encode_rejecting_empty [str ''a'', []] = Inl ValueError \<and>
   generate_batch_embeddings encode_rejecting_empty (\<lambda>x. x) [str ''a'', []] =
     [replicate 384 0, replicate 384 0] \<and>
   encode_rejecting_empty [str ''a'', str ''bc''] = Inr [replicate 384 1, replicate 384 2] \<and>
   generate_batch_embeddings encode_rejecting_empty (\<lambda>x. x) [str ''a'', str ''bc''] =
     map (generate_embeddings encode_rejecting_empty (\<lambda>x. x)) [str ''a'', str ''bc'']"
proof -
  have 1: "encode_rejecting_empty [str ''a'', []] = Inl ValueError"
    by (simp add: encode_rejecting_empty_def)
  have 2: "encode_rejecting_empty [str ''a'', str ''bc''] =
             Inr [replicate 384 1, replicate 384 2]"
    by (simp add: encode_rejecting_empty_def str_def)
  have 3: "list_all (\<lambda>i. encode_rejecting_empty [[str ''a'', str ''bc''] ! i] =
                          Inr [[replicate 384 1, replicate 384 2] ! i])
             [0..<length [str ''a'', str ''bc'']]"
    by (simp add: encode_rejecting_empty_def str_def upt_rec)
  from generate_batch_embeddings_itemwise
         [where encode = encode_rejecting_empty and texts = "[str ''a'', []]"
            and e = ValueError and astype = "\<lambda>x. x"] 1
  have 4: "generate_batch_embeddings encode_rejecting_empty (\<lambda>x. x) [str ''a'', []] =
     [replicate 384 0, replicate 384 0]"
    by (simp add: numeral_2_eq_2)
  from generate_batch_embeddings_itemwise
         [where encode = encode_rejecting_empty and texts = "[str ''a'', str ''bc'']"
            and vs = "[replicate 384 1, replicate 384 2]" and astype = "\<lambda>x. x"] 2 3
  have 5: "generate_batch_embeddings encode_rejecting_empty (\<lambda>x. x) [str ''a'', str ''bc''] =
     map (generate_embeddings encode_rejecting_empty (\<lambda>x. x)) [str ''a'', str ''bc'']"
    by simp
  show ?thesis using 1 2 4 5 by (simp only: simp_thms)
qed

text \<open>
  The claim C9 as written fails: in the batch \<^verbatim>\<open>["a", ""]\<close> the backend raises because
  of the second text, the handler replaces the whole batch by zero vectors, and the
  vector at position 0 differs from the one the single-text operation returns for
  \<^verbatim>\<open>"a"\<close>.
\<close>

theorem generate_batch_embeddings_contaminated:
  "generate_batch_embeddings encode_rejecting_empty (\<lambda>x. x) [str ''a'', []] =
     [replicate 384 0, replicate 384 0] \<and>
   generate_embeddings encode_rejecting_empty (\<lambda>x. x) (str ''a'') = replicate 384 1 \<and>
   generate_batch_embeddings encode_rejecting_empty (\<lambda>x. x) [str ''a'', []] ! 0 \<noteq>
     generate_embeddings encode_rejecting_empty (\<lambda>x. x) ([str ''a'', []] ! 0)"
proof -
  have 1: "generate_batch_embeddings encode_rejecting_empty (\<lambda>x. x) [str ''a'', []] =
     [replicate 384 0, replicate 384 0]"
    by (simp add: generate_batch_embeddings_def encode_rejecting_empty_def)
  have 2: "generate_embeddings encode_rejecting_empty (\<lambda>x. x) (str ''a'') = replicate 384 1"
    by (simp add: generate_embeddings_def generate_embeddings_try_def
          encode_rejecting_empty_def str_def)
  have 3: "replicate 384 (0::real) \<noteq> replicate 384 1"
    by (simp add: replicate_eq_replicate)
  show ?thesis using 1 2 3 by simp
qed

text \<open>
  Claim C10, as amended. The single-text operation returns a vector for every input
  and never an exception. When the backend raises, or returns no vector, the result is
  the zero vector of length 384. When the backend returns a vector, the result is that
  vector after the cast, with the length that the backend gave it: the length is 384
  on the failure path and the dimension of the backend on the success path.
\<close>

theorem generate_embeddings_total:
  "(encode [t] = Inl e \<longrightarrow> generate_embeddings encode astype t = replicate 384 0) \<and>
   (encode [t] = Inr [] \<longrightarrow> generate_embeddings encode astype t = replicate 384 0) \<and>
   (encode [t] = Inr (v # vs) \<longrightarrow> generate_embeddings encode astype t = map astype v) \<and>
   length (generate_embeddings encode astype t) =
     (case encode [t] of Inl e \<Rightarrow> 384 | Inr [] \<Rightarrow> 384 | Inr (v # vs) \<Rightarrow> length v)"
  by (auto simp: generate_embeddings_def generate_embeddings_try_def
           split: sum.splits list.splits)

text \<open>
  The backend that rejects the empty text: the empty text gives the zero vector of
  length 384, the text \<^verbatim>\<open>"ab"\<close> gives the vector of the backend.
\<close>

theorem generate_embeddings_total_witness:
  "encode_rejecting_empty [[]] = Inl ValueError \<and>
   generate_embeddings encode_rejecting_empty (\<lambda>x. x) [] = replicate 384 0 \<and>
   encode_rejecting_empty [str ''ab''] = Inr [replicate 384 2] \<and>
   generate_embeddings encode_rejecting_empty (\<lambda>x. x) (str ''ab'') = replicate 384 2 \<and>
   length (generate_embeddings encode_rejecting_empty (\<lambda>x. x) (str ''ab'')) = 384"
proof -
  have 1: "encode_rejecting_empty [[]] = Inl ValueError"
    by (simp add: encode_rejecting_empty_def)
  have 2: "encode_rejecting_empty [str ''ab''] = Inr [replicate 384 2]"
    by (simp add: encode_rejecting_empty_def str_def)
  from generate_embeddings_total
         [where encode = encode_rejecting_empty and t = "[]" and e = ValueError
            and astype = "\<lambda>x. x"] 1
  have 3: "generate_embeddings encode_rejecting_empty (\<lambda>x. x) [] = replicate 384 0"
    by blast
  from generate_embeddings_total
         [where encode = encode_rejecting_empty and t = "str ''ab''" and astype = "\<lambda>x. x"
            and v = "replicate 384 2" and vs = "[]"] 2
  have 4: "generate_embeddings encode_rejecting_empty (\<lambda>x. x) (str ''ab'') = replicate 384 2"
    by simp
  have 5: "length (generate_embeddings encode_rejecting_empty (\<lambda>x. x) (str ''ab'')) = 384"
    unfolding 4 by simp
  show ?thesis using 1 2 3 4 5 by (simp only: simp_thms)
qed

text \<open>
  The claim C10 as written fails: on a backend of dimension 3 the operation returns
  the vector of the backend, of length 3 and not 384.
\<close>

theorem generate_embeddings_backend_dimension:
  "encode_three_dimensional [str ''a''] = Inr [[1, 2, 3]] \<and>
   generate_embeddings encode_three_dimensional (\<lambda>x. x) (str ''a'') = [1, 2, 3] \<and>
   length (generate_embeddings encode_three_dimensional (\<lambda>x. x) (str ''a'')) = 3 \<and>
   length (generate_embeddings encode_three_dimensional (\<lambda>x. x) (str ''a'')) \<noteq> 384"
  by (simp add: generate_embeddings_def generate_embeddings_try_def
        encode_three_dimensional_def)

section \<open>Claims about the vector index\<close>



text \<open>
  Claim C2. When the storage layer fails at the insert of the document row, at the
  insert of the embedding row or at the commit, the operation raises. Whenever the
  operation raises, the committed database is the one before the call and no
  transaction is left open, so the index holds neither of the two rows; if it had no
  embedding row without its document row and no document row without its embedding
  row before the call, it has none after it. The exception is the one of the storage
  layer (the \<^verbatim>\<open>sqlite3\<close> error, raised again by the handler), unless an integer
  argument does not fit a column and \<^verbatim>\<open>OverflowError\<close> is raised before anything is
  written. Both writes and the commit are one transaction, which the handler rolls
  back.
\<close>

theorem add_document_failure_has_no_partial_effect:
  "(faults InsertDocument \<or> faults InsertEmbedding \<or> faults Commit \<longrightarrow>
      (\<exists>conn' e. add_document_with_embeddings faults json_dumps conn filename content
                    processed_data embedding metadata = (conn', Inl e))) \<and>
   (add_document_with_embeddings faults json_dumps conn filename content processed_data
      embedding metadata = (conn', Inl e) \<longrightarrow>
      committed conn' = committed conn \<and> pending conn' = None \<and>
      working conn' = committed conn \<and>
      (paired (committed conn) \<longrightarrow> paired (working conn')) \<and>
      (e = Sqlite3Error \<or>
       e = OverflowError \<and>
       (sqlite_bind (dict_get processed_data ''cleaned_content'' (PStr content)) =
          Some OverflowError \<or>
        sqlite_bind (dict_get processed_data ''word_count''
                       (PInt (int (length (split content))))) = Some OverflowError)))"
proof (intro conjI impI)
  assume "faults InsertDocument \<or> faults InsertEmbedding \<or> faults Commit"
  from add_document_try_fault_raises [OF this]
  obtain c e' where "add_document_with_embeddings_try faults json_dumps conn filename content
             processed_data embedding metadata = (c, Inl e')"
    by blast
  then show "\<exists>conn' e. add_document_with_embeddings faults json_dumps conn filename content
                  processed_data embedding metadata = (conn', Inl e)"
    by (simp add: add_document_with_embeddings_def)
next
  assume a: "add_document_with_embeddings faults json_dumps conn filename content
      processed_data embedding metadata = (conn', Inl e)"
  then obtain c where t: "add_document_with_embeddings_try faults json_dumps conn filename
             content processed_data embedding metadata = (c, Inl e)"
    and c: "conn' = rollback c"
    by (auto simp: add_document_with_embeddings_def split: prod.splits sum.splits)
  from add_document_try_error_committed [OF t] have k: "committed c = committed conn" .
  show "committed conn' = committed conn" using c k by (simp add: rollback_def)
  show "pending conn' = None" using c by (simp add: rollback_def)
  show w: "working conn' = committed conn" using c k by (simp add: rollback_def working_def)
  show "paired (working conn')" if "paired (committed conn)" using that w by simp
  show "e = Sqlite3Error \<or>
       e = OverflowError \<and>
       (sqlite_bind (dict_get processed_data ''cleaned_content'' (PStr content)) =
          Some OverflowError \<or>
        sqlite_bind (dict_get processed_data ''word_count''
                       (PInt (int (length (split content))))) = Some OverflowError)"
    by (rule add_document_try_error_kind [OF t])
qed

text \<open>
  A fault at the insert of the embedding row, after the document row was written: the
  connection is unchanged. The same when the vector has the wrong dimension.
\<close>

theorem add_document_failure_has_no_partial_effect_witness:
  "add_document_with_embeddings (\<lambda>s. s = InsertEmbedding) (\<lambda>v. str ''[]'') sample_connection
     (str ''f'') (str ''a b'') Map.empty (replicate 384 0) None =
     (sample_connection, Inl Sqlite3Error) \<and>
   paired (committed sample_connection) \<and>
   paired (working sample_connection) \<and>
   add_document_with_embeddings no_faults (\<lambda>v. str ''[]'') sample_connection
     (str ''f'') (str ''a b'') Map.empty (replicate 3 0) None =
     (sample_connection, Inl Sqlite3Error)"
proof -
  have p: "paired (committed sample_connection)"
    by (simp add: paired_def sample_connection_def sample_row_def)
  have n: "pending sample_connection = None" by (simp add: sample_connection_def)
  have eq: "c = sample_connection"
    if "committed c = committed sample_connection" and "pending c = None" for c
    using that n by simp
  have b: "sqlite_bind (dict_get Map.empty ''cleaned_content'' (PStr (str ''a b''))) = None"
          "sqlite_bind (dict_get Map.empty ''word_count''
                          (PInt (int (length (split (str ''a b'')))))) = None"
    by (simp_all add: dict_get_def str_def isspace_def)
  from add_document_failure_has_no_partial_effect
         [where faults = "\<lambda>s. s = InsertEmbedding" and json_dumps = "\<lambda>v. str ''[]''"
            and conn = sample_connection and filename = "str ''f''" and content = "str ''a b''"
            and processed_data = Map.empty and embedding = "replicate 384 0"
            and metadata = None]
  have 1: "add_document_with_embeddings (\<lambda>s. s = InsertEmbedding) (\<lambda>v. str ''[]'')
             sample_connection (str ''f'') (str ''a b'') Map.empty (replicate 384 0) None =
           (sample_connection, Inl Sqlite3Error)"
    using eq b by (metis (full_types) option.distinct(1))
  have 2: "add_document_with_embeddings no_faults (\<lambda>v. str ''[]'') sample_connection
     (str ''f'') (str ''a b'') Map.empty (replicate 3 0) None =
     (sample_connection, Inl Sqlite3Error)"
    by (simp add: add_document_with_embeddings_def add_document_with_embeddings_try_def
          insert_document_def insert_embedding_def no_faults_def dict_get_def rollback_def
          working_def next_rowid_def sample_connection_def sample_row_def Let_def str_def
          isspace_def)
  show ?thesis using 1 2 p n by (simp add: working_def)
qed

text \<open>
  Claim C7. On an index with no document rows (or with no embedding rows) the query
  returns the empty list, for every query vector, limit and threshold; the result of
  the operation is a list in every case, since its handler turns every exception into
  the empty list.
\<close>

theorem semantic_search_empty_index:
  assumes "documents (working conn) = [] \<or> document_embeddings (working conn) = []"
  shows "semantic_search json_loads conn query_embedding limit distance_threshold = []"
  by (rule semantic_search_returns_nothing)

text \<open>The query on the empty database.\<close>

theorem semantic_search_empty_index_witness:
  "documents (working empty_connection) = [] \<and>
   semantic_search (\<lambda>s. Inr (PStr s)) empty_connection (replicate 384 0) 5 (3/2) = []"
  using semantic_search_empty_index
          [where conn = empty_connection and json_loads = "\<lambda>s. Inr (PStr s)"
             and query_embedding = "replicate 384 0" and limit = 5
             and distance_threshold = "3/2"]
  by (simp add: empty_connection_def working_def)

section \<open>Claims about the document search\<close>

text \<open>
  Claim C8, as amended. Neither search operation has an embedding step or a degraded
  flag: for every call the response has no key \<^verbatim>\<open>degraded\<close>. Every call returns a
  response whose results come from a case-insensitive substring match of the query,
  over the stored chunk texts (app.py) or over the stored contents (fixed_backend.py);
  the score of a result is \<open>min (85 + 10 * matches) 100\<close>, respectively
  \<open>min 90 (60 + 10 * matches)\<close>. The results are the slice \<^verbatim>\<open>[:limit]\<close> of the ranked
  list, which is in descending order of that score and keeps the results of equal
  score in storage order: the rank is fixed by the capped score and the position of
  the document, not by the number of occurrences.
\<close>

theorem search_documents_keyword_only:
  "map_of (search_documents lower stored query limit) ''degraded'' = None \<and>
   map_of (search_documents_fixed lower stored query limit) ''degraded'' = None \<and>
   (\<exists>hits ranked.
      map_of (search_documents lower stored query limit) ''results'' = Some (Hits hits) \<and>
      sorted (map (\<lambda>x. - hit_relevance_score x) hits) \<and>
      list_all (chunk_hit lower stored query) hits \<and>
      hits = py_slice ranked 0 limit \<and>
      sorted (map (\<lambda>x. - hit_relevance_score x) ranked) \<and>
      (\<forall>k. filter (\<lambda>h. hit_relevance_score h = k) ranked =
           filter (\<lambda>h. hit_relevance_score h = k) (chunk_results lower query stored))) \<and>
   (\<exists>hits ranked.
      map_of (search_documents_fixed lower stored query limit) ''results'' = Some (Hits hits) \<and>
      sorted (map (\<lambda>x. - hit_relevance_score x) hits) \<and>
      list_all (content_hit lower stored query) hits \<and>
      hits = py_slice ranked 0 limit \<and>
      sorted (map (\<lambda>x. - hit_relevance_score x) ranked) \<and>
      (\<forall>k. filter (\<lambda>h. hit_relevance_score h = k) ranked =
           filter (\<lambda>h. hit_relevance_score h = k) (content_results lower query stored)))"
proof (intro conjI)
  show "map_of (search_documents lower stored query limit) ''degraded'' = None"
    by (simp add: search_documents_def Let_def)
  show "map_of (search_documents_fixed lower stored query limit) ''degraded'' = None"
    by (simp add: search_documents_fixed_def Let_def)
  show "\<exists>hits ranked.
      map_of (search_documents lower stored query limit) ''results'' = Some (Hits hits) \<and>
      sorted (map (\<lambda>x. - hit_relevance_score x) hits) \<and>
      list_all (chunk_hit lower stored query) hits \<and>
      hits = py_slice ranked 0 limit \<and>
      sorted (map (\<lambda>x. - hit_relevance_score x) ranked) \<and>
      (\<forall>k. filter (\<lambda>h. hit_relevance_score h = k) ranked =
           filter (\<lambda>h. hit_relevance_score h = k) (chunk_results lower query stored))"
  proof -
    let ?ranked = "sort_key (\<lambda>x. - hit_relevance_score x) (chunk_results lower query stored)"
    have 1: "map_of (search_documents lower stored query limit) ''results'' =
               Some (Hits (py_slice ?ranked 0 limit))"
      by (rule search_documents_results)
    have 2: "sorted (map (\<lambda>x. - hit_relevance_score x) (py_slice ?ranked 0 limit))"
      by (intro sorted_py_slice sorted_sort_key)
    have 3: "list_all (chunk_hit lower stored query) (py_slice ?ranked 0 limit)"
      using chunk_results_hits by (rule list_all_py_slice_sort)
    have 4: "sorted (map (\<lambda>x. - hit_relevance_score x) ?ranked)"
      by (rule sorted_sort_key)
    have 5: "\<forall>k. filter (\<lambda>h. hit_relevance_score h = k) ?ranked =
                 filter (\<lambda>h. hit_relevance_score h = k) (chunk_results lower query stored)"
      by (simp only: sort_by_score_stable simp_thms)
    from 1 2 3 4 5 show ?thesis by blast
  qed
  show "\<exists>hits ranked.
      map_of (search_documents_fixed lower stored query limit) ''results'' = Some (Hits hits) \<and>
      sorted (map (\<lambda>x. - hit_relevance_score x) hits) \<and>
      list_all (content_hit lower stored query) hits \<and>
      hits = py_slice ranked 0 limit \<and>
      sorted (map (\<lambda>x. - hit_relevance_score x) ranked) \<and>
      (\<forall>k. filter (\<lambda>h. hit_relevance_score h = k) ranked =
           filter (\<lambda>h. hit_relevance_score h = k) (content_results lower query stored))"
  proof -
    let ?ranked = "sort_key (\<lambda>x. - hit_relevance_score x) (content_results lower query stored)"
    have 1: "map_of (search_documents_fixed lower stored query limit) ''results'' =
               Some (Hits (py_slice ?ranked 0 limit))"
      by (rule search_documents_fixed_results)
    have 2: "sorted (map (\<lambda>x. - hit_relevance_score x) (py_slice ?ranked 0 limit))"
      by (intro sorted_py_slice sorted_sort_key)
    have 3: "list_all (content_hit lower stored query) (py_slice ?ranked 0 limit)"
      using content_results_hits by (rule list_all_py_slice_sort)
    have 4: "sorted (map (\<lambda>x. - hit_relevance_score x) ?ranked)"
      by (rule sorted_sort_key)
    have 5: "\<forall>k. filter (\<lambda>h. hit_relevance_score h = k) ?ranked =
                 filter (\<lambda>h. hit_relevance_score h = k) (content_results lower query stored)"
      by (simp only: sort_by_score_stable simp_thms)
    from 1 2 3 4 5 show ?thesis by blast
  qed
qed

text \<open>
  The search for \<^verbatim>\<open>"x"\<close> over the two sample documents: both results have the capped
  score 100, and they stay in storage order, the document with two matching chunks
  before the one with three.
\<close>

theorem search_documents_keyword_only_witness:
  "map_of (search_documents ascii_lower sample_documents (str ''x'') 5) ''degraded'' = None \<and>
   map_of (search_documents ascii_lower sample_documents (str ''x'') 5) ''results'' =
     Some (Hits [\<lparr>hit_filename = str ''a.txt'', hit_content_preview = str ''X y...'',
                   hit_relevance_score = 100, hit_matches = 2\<rparr>,
                 \<lparr>hit_filename = str ''b.txt'', hit_content_preview = str ''x...'',
                   hit_relevance_score = 100, hit_matches = 3\<rparr>]) \<and>
   sorted (map (\<lambda>x. - hit_relevance_score x)
     [\<lparr>hit_filename = str ''a.txt'', hit_content_preview = str ''X y...'',
        hit_relevance_score = 100, hit_matches = 2\<rparr>,
      \<lparr>hit_filename = str ''b.txt'', hit_content_preview = str ''x...'',
        hit_relevance_score = 100, hit_matches = 3\<rparr>]) \<and>
   chunk_results ascii_lower (str ''x'') sample_documents =
     [\<lparr>hit_filename = str ''a.txt'', hit_content_preview = str ''X y...'',
        hit_relevance_score = 100, hit_matches = 2\<rparr>,
      \<lparr>hit_filename = str ''b.txt'', hit_content_preview = str ''x...'',
        hit_relevance_score = 100, hit_matches = 3\<rparr>]"
proof -
  from search_documents_keyword_only
          [where lower = ascii_lower and stored = sample_documents and query = "str ''x''"
             and limit = 5]
  have d: "map_of (search_documents ascii_lower sample_documents (str ''x'') 5) ''degraded'' =
             None"
    by (rule conjunct1)
  show ?thesis
    using d unfolding search_documents_sample chunk_results_sample by simp
qed

text \<open>
  The claim C8 as written fails: the response to the search for \<^verbatim>\<open>"x"\<close> over the two
  sample documents has the keys \<^verbatim>\<open>results\<close>, \<^verbatim>\<open>total_documents\<close> and \<^verbatim>\<open>query\<close> and no
  \<^verbatim>\<open>degraded\<close> flag, and the document with fewer matches comes first, because both
  scores are capped to the same value.
\<close>

theorem search_documents_not_degraded_flagged:
  "map fst (search_documents ascii_lower sample_documents (str ''x'') 5) =
     [''results'', ''total_documents'', ''query''] \<and>
   map_of (search_documents ascii_lower sample_documents (str ''x'') 5) ''degraded'' \<noteq>
     Some (Number 1) \<and>
   map_of (search_documents ascii_lower sample_documents (str ''x'') 5) ''degraded'' = None \<and>
   map_of (search_documents ascii_lower sample_documents (str ''x'') 5) ''results'' =
     Some (Hits [\<lparr>hit_filename = str ''a.txt'', hit_content_preview = str ''X y...'',
                   hit_relevance_score = 100, hit_matches = 2\<rparr>,
                 \<lparr>hit_filename = str ''b.txt'', hit_content_preview = str ''x...'',
                   hit_relevance_score = 100, hit_matches = 3\<rparr>]) \<and>
   map fst (search_documents_fixed ascii_lower sample_documents (str ''x'') 5) =
     [''results'', ''total_documents'', ''query''] \<and>
   map_of (search_documents_fixed ascii_lower sample_documents (str ''x'') 5) ''results'' =
     Some (Hits [\<lparr>hit_filename = str ''a.txt'', hit_content_preview = str ''X y x z x'',
                   hit_relevance_score = 90, hit_matches = 3\<rparr>,
                 \<lparr>hit_filename = str ''b.txt'', hit_content_preview = str ''x x x x'',
                   hit_relevance_score = 90, hit_matches = 4\<rparr>])"
  unfolding search_documents_sample search_documents_fixed_sample by simp

end
